theory Spec2Isabelle
  imports
    Complex_Main
    "HOL-Library.Extended_Nat"
    "HOL-Library.Sublist"
    "HOL-Library.Monad_Syntax"
begin

section \<open>Strings of the source language\<close>

text \<open>
  A Python string is a sequence of code points. The model covers the code points
  \<open>0 .. 255\<close> (Basic Latin and Latin-1 Supplement, which holds the letter
  \<open>U+00F8\<close> of the hard-coded file name prefix): a \<^typ>\<open>char\<close> is
  one code point, read with \<^const>\<open>of_char\<close>, and \<^const>\<open>length\<close>
  counts code points as \<^verbatim>\<open>len\<close> does. The character classes below are
  the ones of \<^verbatim>\<open>str.isspace\<close>, \<^verbatim>\<open>str.isdigit\<close> and
  \<^verbatim>\<open>str.lower\<close> on that range.
\<close>

definition isspace :: "char \<Rightarrow> bool" where
  "isspace c =
     (let n = (of_char c :: nat)
      in (9 \<le> n \<and> n \<le> 13) \<or> (28 \<le> n \<and> n \<le> 32) \<or> n = 133 \<or> n = 160)"

text \<open>\<^verbatim>\<open>str.isdigit\<close>: the decimal digits and the superscripts one, two, three.\<close>

definition isdigit :: "char \<Rightarrow> bool" where
  "isdigit c =
     (let n = (of_char c :: nat)
      in (48 \<le> n \<and> n \<le> 57) \<or> n = 178 \<or> n = 179 \<or> n = 185)"

text \<open>The decimal digits \<open>0 .. 9\<close>: what \<^verbatim>\<open>int\<close> and the pattern
  \<^verbatim>\<open>\d\<close> accept.\<close>

definition isdecimal :: "char \<Rightarrow> bool" where
  "isdecimal c = (let n = (of_char c :: nat) in 48 \<le> n \<and> n \<le> 57)"

definition lower_char :: "char \<Rightarrow> char" where
  "lower_char c =
     (let n = (of_char c :: nat)
      in if (65 \<le> n \<and> n \<le> 90) \<or> (192 \<le> n \<and> n \<le> 222 \<and> n \<noteq> 215)
         then char_of (n + 32) else c)"

definition lower :: "string \<Rightarrow> string" where
  "lower s = map lower_char s"

text \<open>\<^verbatim>\<open>s.strip()\<close>\<close>

definition strip :: "string \<Rightarrow> string" where
  "strip s = rev (dropWhile isspace (rev (dropWhile isspace s)))"

text \<open>\<^verbatim>\<open>s.split()\<close>: the maximal runs of characters that are not white
  space. The first argument is the word being read, last character first.\<close>

fun split_acc :: "string \<Rightarrow> string \<Rightarrow> string list" where
  "split_acc cur [] = (if cur = [] then [] else [rev cur])"
| "split_acc cur (c # cs) =
     (if isspace c
      then (if cur = [] then split_acc [] cs else rev cur # split_acc [] cs)
      else split_acc (c # cur) cs)"

definition str_split :: "string \<Rightarrow> string list" where
  "str_split s = split_acc [] s"

text \<open>\<^verbatim>\<open>s.startswith(p)\<close> is \<^term>\<open>prefix p s\<close> and
  \<^verbatim>\<open>a in b\<close> on strings is \<^term>\<open>sublist a b\<close>.\<close>

text \<open>\<^verbatim>\<open>s.rfind(c)\<close> for a single character: the last index, or \<open>-1\<close>.\<close>

definition rfind :: "char \<Rightarrow> string \<Rightarrow> int" where
  "rfind c s =
     (case filter (\<lambda>i. s ! i = c) (rev [0..<length s]) of
        [] \<Rightarrow> - 1
      | i # _ \<Rightarrow> int i)"

text \<open>
  \<^verbatim>\<open>os.path.splitext\<close> of the POSIX path module: the extension starts at the
  last dot of the last path component, unless only dots stand before it in that component.
\<close>

definition splitext :: "string \<Rightarrow> string \<times> string" where
  "splitext p =
     (let sepIndex = rfind CHR ''/'' p;
          dotIndex = rfind CHR ''.'' p
      in if dotIndex > sepIndex \<and>
            list_ex (\<lambda>i. p ! i \<noteq> CHR ''.'') [nat (sepIndex + 1)..<nat dotIndex]
         then (take (nat dotIndex) p, drop (nat dotIndex) p)
         else (p, []))"

section \<open>Errors and integers\<close>

datatype error = KeyError | AttributeError | ValueError | OverflowError

text \<open>
  \<^verbatim>\<open>int(s)\<close> on a string: white space around, an optional sign, then decimal
  digits, where one underscore may stand between two digits. Anything else, and a numeral
  of more than 4300 digits (the interpreter's default limit), raises
  \<^verbatim>\<open>ValueError\<close>.
\<close>

definition int_space :: "char \<Rightarrow> bool" where
  "int_space c =
     (let n = (of_char c :: nat) in (9 \<le> n \<and> n \<le> 13) \<or> n = 32 \<or> n = 133 \<or> n = 160)"

fun digits_ok :: "string \<Rightarrow> bool" where
  "digits_ok [] = False"
| "digits_ok [c] = isdecimal c"
| "digits_ok (c # d # cs) =
     (isdecimal c \<and> (if d = CHR ''_'' then digits_ok cs else digits_ok (d # cs)))"

definition digit_val :: "char \<Rightarrow> nat" where
  "digit_val c = of_char c - 48"

definition num_val :: "string \<Rightarrow> int" where
  "num_val s = foldl (\<lambda>a c. 10 * a + int (digit_val c)) 0 (filter isdecimal s)"

definition py_int :: "string \<Rightarrow> error + int" where
  "py_int s =
     (let s1 = dropWhile int_space s;
          body = rev (dropWhile int_space (rev (case s1 of
                   c # r \<Rightarrow> if c = CHR ''+'' \<or> c = CHR ''-'' then r else s1
                 | [] \<Rightarrow> s1)))
      in if digits_ok body \<and> length (filter isdecimal body) \<le> 4300
         then Inr ((if prefix ''-'' s1 then - 1 else 1) * num_val body)
         else Inl ValueError)"

section \<open>Time stamps\<close>

text \<open>
  \<^verbatim>\<open>datetime.strptime\<close> for the two formats of the source,
  \<^verbatim>\<open>%Y-%m-%d %H:%M:%S\<close> and \<^verbatim>\<open>%Y:%m:%d %H:%M:%S\<close>, which differ
  in the separator of the date. A field of one or two characters is read as the library's
  pattern reads it; the whole string must be consumed; the date must exist. The result is
  \<^const>\<open>None\<close> where the library raises.
\<close>

record datetime =
  year :: int
  month :: int
  day :: int
  hour :: int
  minute :: int
  second :: int

definition two_or_one ::
  "(char \<Rightarrow> char \<Rightarrow> bool) \<Rightarrow> (char \<Rightarrow> bool) \<Rightarrow> (string \<Rightarrow> bool) \<Rightarrow> string
     \<Rightarrow> (int \<times> string) option" where
  "two_or_one two_ok one_ok follow s =
     (case s of
        [] \<Rightarrow> None
      | [a] \<Rightarrow> if one_ok a \<and> follow [] then Some (num_val [a], []) else None
      | a # b # r \<Rightarrow>
          if two_ok a b \<and> follow r then Some (num_val [a, b], r)
          else if one_ok a \<and> follow (b # r) then Some (num_val [a], b # r)
          else None)"

definition in_range :: "char \<Rightarrow> char \<Rightarrow> char \<Rightarrow> bool" where
  "in_range lo hi c = ((of_char lo :: nat) \<le> of_char c \<and> (of_char c :: nat) \<le> of_char hi)"

definition is_leap :: "int \<Rightarrow> bool" where
  "is_leap y = (y mod 4 = 0 \<and> (y mod 100 \<noteq> 0 \<or> y mod 400 = 0))"

definition days_in_month :: "int \<Rightarrow> int \<Rightarrow> int" where
  "days_in_month y m =
     (if m = 2 then (if is_leap y then 29 else 28)
      else if m = 4 \<or> m = 6 \<or> m = 9 \<or> m = 11 then 30 else 31)"

definition strptime :: "char \<Rightarrow> string \<Rightarrow> datetime option" where
  "strptime sep s =
     (if length s < 4 \<or> \<not> list_all isdecimal (take 4 s) then None
      else do {
        let y = num_val (take 4 s);
        (m, s1) \<leftarrow> (case drop 4 s of [] \<Rightarrow> None | c # r \<Rightarrow> if c = sep
            then two_or_one
              (\<lambda>a b. (a = CHR ''1'' \<and> in_range CHR ''0'' CHR ''2'' b) \<or>
                     (a = CHR ''0'' \<and> in_range CHR ''1'' CHR ''9'' b))
              (in_range CHR ''1'' CHR ''9'') (prefix [sep]) r
            else None);
        (d, s2) \<leftarrow> two_or_one
              (\<lambda>a b. (a = CHR ''3'' \<and> in_range CHR ''0'' CHR ''1'' b) \<or>
                     (in_range CHR ''1'' CHR ''2'' a \<and> isdecimal b) \<or>
                     (a = CHR ''0'' \<and> in_range CHR ''1'' CHR ''9'' b) \<or>
                     (a = CHR '' '' \<and> in_range CHR ''1'' CHR ''9'' b))
              (in_range CHR ''1'' CHR ''9'')
              (\<lambda>r. case r of [] \<Rightarrow> False | c # _ \<Rightarrow> isspace c) (drop 1 s1);
        (H, s3) \<leftarrow> two_or_one
              (\<lambda>a b. (a = CHR ''2'' \<and> in_range CHR ''0'' CHR ''3'' b) \<or>
                     (in_range CHR ''0'' CHR ''1'' a \<and> isdecimal b))
              isdecimal (prefix '':'') (dropWhile isspace s2);
        (M, s4) \<leftarrow> two_or_one
              (\<lambda>a b. in_range CHR ''0'' CHR ''5'' a \<and> isdecimal b)
              isdecimal (prefix '':'') (drop 1 s3);
        (S, s5) \<leftarrow> two_or_one
              (\<lambda>a b. (a = CHR ''6'' \<and> in_range CHR ''0'' CHR ''1'' b) \<or>
                     (in_range CHR ''0'' CHR ''5'' a \<and> isdecimal b))
              isdecimal (\<lambda>r. True) (drop 1 s4);
        if s5 = [] \<and> 1 \<le> y \<and> S \<le> 59 \<and> d \<le> days_in_month y m
        then Some \<lparr>year = y, month = m, day = d, hour = H, minute = M, second = S\<rparr>
        else None
      })"

text \<open>The proleptic Gregorian ordinal of a date (day 1 is 1 January of year 1), and the
  seconds from the start of that calendar: the difference of two time stamps in seconds
  is the difference of these.\<close>

definition ordinal :: "datetime \<Rightarrow> int" where
  "ordinal t =
     (let y1 = year t - 1
      in y1 * 365 + y1 div 4 - y1 div 100 + y1 div 400
         + sum_list (map (days_in_month (year t)) [1..month t - 1]) + day t)"

definition total_seconds :: "datetime \<Rightarrow> int" where
  "total_seconds t =
     ordinal t * 86400 + hour t * 3600 + minute t * 60 + second t"

section \<open>Rows and image records\<close>

text \<open>
  A row of the table is a dictionary from column names to cells; a cell is a string, or
  \<^verbatim>\<open>None\<close> where the line of the table was shorter than its header. An image
  record is the dictionary \<^verbatim>\<open>get_img_metadata\<close> builds, with all its keys; the
  byte size is the integer the file system reports, which is never negative.
\<close>

datatype cell = PyNone | PyStr string

type_synonym csv_row = "string \<rightharpoonup> cell"

record image =
  path :: string
  filename :: string
  size_bytes :: int
  raw_filename :: string
  width :: int
  height :: int
  create_date :: string
  date_time_original :: string
  modify_date :: string
  camera_model :: string
  lens :: string

definition DATE_TOLERANCE :: enat where
  "DATE_TOLERANCE = 300"

text \<open>\<^verbatim>\<open>int(csv_row.get('File Size', 0) or 0)\<close>: a missing column, a missing
  cell and the empty string give 0; any other string is parsed.\<close>

definition csv_size_of :: "csv_row \<Rightarrow> error + int" where
  "csv_size_of csv_row =
     (case csv_row ''File Size'' of
        None \<Rightarrow> Inr 0
      | Some PyNone \<Rightarrow> Inr 0
      | Some (PyStr s) \<Rightarrow> if s = [] then Inr 0 else py_int s)"

section \<open>The matcher\<close>

subsection \<open>\<^verbatim>\<open>disambiguate_matches\<close>\<close>

text \<open>
  The source, after the two early returns for an empty and a one-element list:
  \<^verbatim>\<open>
    csv_size = int(csv_row.get('File Size', 0) or 0)
    size_diff = [abs(m['size'] - csv_size) for m in matches]
    min_size_diff = min(size_diff)
    size_matches = [m for m, diff in zip(matches, size_diff) if diff == min_size_diff]
    if len(size_matches) == 1:
        return size_matches[0]
    try:
        csv_date = datetime.datetime.strptime(csv_row.get('Published Date', ''), "%Y-%m-%d %H:%M:%S")
        date_diffs = []
        for m in matches:
            try:
                img_date = datetime.datetime.strptime(m['modify_date'].split('.')[0], "%Y:%m:%d %H:%M:%S")
                date_diffs.append(abs((img_date - csv_date).total_seconds()))
            except:
                date_diffs.append(float('inf'))
        min_date_diff = min(date_diffs)
        if min_date_diff < DATE_TOLERANCE:
            date_matches = [m for m, diff in zip(matches, date_diffs) if diff == min_date_diff]
            if len(date_matches) == 1:
                return date_matches[0]
    except:
        pass
    return None
  \<close>
  The loop of the second step runs over \<^verbatim>\<open>matches\<close>, the whole list, as the
  first does. The result \<^verbatim>\<open>None\<close> is \<^term>\<open>Inr None\<close> here, a record is
  \<^term>\<open>Inr (Some m)\<close>, and an exception that leaves the function is \<^term>\<open>Inl e\<close>.
\<close>

text \<open>The absolute difference of a candidate's byte size and the declared size.\<close>

definition size_diff_of :: "int \<Rightarrow> image \<Rightarrow> int" where
  "size_diff_of csv_size m = \<bar>size_bytes m - csv_size\<bar>"

text \<open>
  The distance in seconds of a candidate's modification time from the publishing time.
  The source cuts the candidate's time stamp at its first dot before parsing it; a time
  stamp that does not parse is infinitely far.
\<close>

definition date_diff_of :: "datetime \<Rightarrow> image \<Rightarrow> enat" where
  "date_diff_of csv_date m =
     (case strptime CHR '':'' (takeWhile (\<lambda>c. c \<noteq> CHR ''.'') (modify_date m)) of
        Some img_date \<Rightarrow> enat (nat \<bar>total_seconds img_date - total_seconds csv_date\<bar>)
      | None \<Rightarrow> \<infinity>)"

text \<open>\<^verbatim>\<open>[m for m, diff in zip(matches, diffs) if diff == least]\<close>\<close>

definition at_diff :: "image list \<Rightarrow> 'a list \<Rightarrow> 'a \<Rightarrow> image list" where
  "at_diff matches diff_list least =
     map fst (filter (\<lambda>(m, diff). diff = least) (zip matches diff_list))"

text \<open>The publishing date of the row, \<^verbatim>\<open>csv_row.get('Published Date', '')\<close>,
  parsed; \<^const>\<open>None\<close> where parsing raises (a missing cell is not a string, the
  empty string of a missing column is not a date).\<close>

definition publish_date :: "csv_row \<Rightarrow> datetime option" where
  "publish_date csv_row =
     (case csv_row ''Published Date'' of
        None \<Rightarrow> strptime CHR ''-'' []
      | Some PyNone \<Rightarrow> None
      | Some (PyStr s) \<Rightarrow> strptime CHR ''-'' s)"

text \<open>The second step, inside the source's \<^verbatim>\<open>try\<close>: every exception raised
  there leaves the step without a result.\<close>

definition by_date :: "csv_row \<Rightarrow> image list \<Rightarrow> image option" where
  "by_date csv_row matches =
     (case publish_date csv_row of
        None \<Rightarrow> None
      | Some csv_date \<Rightarrow>
          (let date_diffs = map (date_diff_of csv_date) matches;
               min_date_diff = min_list date_diffs
           in if min_date_diff < DATE_TOLERANCE
              then (let date_matches = at_diff matches date_diffs min_date_diff
                    in if length date_matches = 1 then Some (date_matches ! 0) else None)
              else None))"

definition disambiguate_matches :: "csv_row \<Rightarrow> image list \<Rightarrow> error + image option" where
  "disambiguate_matches csv_row matches =
     (if matches = [] then Inr None
      else if length matches = 1 then Inr (Some (matches ! 0))
      else case csv_size_of csv_row of
          Inl e \<Rightarrow> Inl e
        | Inr csv_size \<Rightarrow>
            (let size_diff = map (size_diff_of csv_size) matches;
                 min_size_diff = min_list size_diff;
                 size_matches = at_diff matches size_diff min_size_diff
             in if length size_matches = 1 then Inr (Some (size_matches ! 0))
                else Inr (by_date csv_row matches)))"

subsection \<open>\<^verbatim>\<open>find_best_match\<close>\<close>

definition get_numbers :: "string \<Rightarrow> string" where
  "get_numbers s = filter isdigit s"

text \<open>
  The conversion of an integer to a floating-point number, which the product of an
  integer and a floating-point number begins with, raises \<^verbatim>\<open>OverflowError\<close> when
  the integer, rounded to the nearest double, is \<open>2\<^sup>1\<^sup>0\<^sup>2\<^sup>4\<close> or more in absolute
  value: from \<open>2\<^sup>1\<^sup>0\<^sup>2\<^sup>4 - 2\<^sup>9\<^sup>7\<^sup>0\<close> on.
\<close>

definition float_overflow :: "int \<Rightarrow> bool" where
  "float_overflow n = (\<bar>n\<bar> \<ge> 2 ^ 1024 - 2 ^ 970)"

text \<open>
  \<^verbatim>\<open>size_tolerance = min(csv_size * 0.05, 100 * 1024) if csv_size > 0 else 0\<close>. A
  declared size too large for a floating-point number raises here, before any strategy
  is built; the source does not catch it. Otherwise the product is a rational number
  in this model. The source computes it in binary floating point and compares it with
  a difference of two integers; the outcome of that comparison is the same, since the
  rounded product lies within \<open>10\<^sup>-\<^sup>1\<^sup>0\<close> of the exact one whenever it is below the
  cap of 102400, is never below an exact integer product, and the exact product is an
  integer or at least \<open>1/20\<close> away from one.
\<close>

definition size_tolerance_of :: "int \<Rightarrow> error + rat" where
  "size_tolerance_of csv_size =
     (if csv_size > 0
      then (if float_overflow csv_size then Inl OverflowError
            else Inr (min (of_int csv_size * (5 / 100)) (100 * 1024)))
      else Inr 0)"

text \<open>\<^verbatim>\<open>abs(img['size'] - csv_size) <= size_tolerance\<close>\<close>

definition within_tolerance :: "rat \<Rightarrow> int \<Rightarrow> image \<Rightarrow> bool" where
  "within_tolerance size_tolerance csv_size img =
     (of_int \<bar>size_bytes img - csv_size\<bar> \<le> size_tolerance)"

text \<open>The nine strategies, in the order of the source's list. They close over the
  stripped file name of the row (\<open>csv_filename\<close> here, \<^verbatim>\<open>filename\<close> in the
  source, where the record's field is a dictionary key), its declared size and the size
  tolerance computed from it.\<close>

definition base_filename_of :: "string \<Rightarrow> string" where
  "base_filename_of csv_filename = lower (fst (splitext csv_filename))"

definition strategies :: "string \<Rightarrow> int \<Rightarrow> rat \<Rightarrow> (image \<Rightarrow> bool) list" where
  "strategies csv_filename csv_size size_tolerance =
     (let base_filename = base_filename_of csv_filename;
          csv_numbers = get_numbers csv_filename
      in [\<lambda>img. raw_filename img \<noteq> [] \<and> lower (fst (splitext (raw_filename img))) = base_filename,
          \<lambda>img. csv_size > 0 \<and> \<bar>size_bytes img - csv_size\<bar> \<le> 1024,
          \<lambda>img. csv_size > 0 \<and> within_tolerance size_tolerance csv_size img,
          \<lambda>img. lower (filename img) = lower csv_filename,
          \<lambda>img. lower (fst (splitext (filename img))) = base_filename,
          \<lambda>img. prefix ''JHR'' csv_filename \<and>
                 prefix (''Jobb bonus i Lillestr'' @ [CHR 0xF8] @ ''m kommune'') (filename img) \<and>
                 get_numbers (filename img) = csv_numbers,
          \<lambda>img. prefix ''SAL-'' csv_filename \<and>
                 prefix ''Overlege Jacob Dag Berild'' (filename img) \<and>
                 get_numbers (filename img) = csv_numbers,
          \<lambda>img. csv_numbers \<noteq> [] \<and> get_numbers (filename img) = csv_numbers,
          \<lambda>img. sublist base_filename (lower (fst (splitext (filename img)))) \<or>
                 sublist (lower (fst (splitext (filename img)))) base_filename])"

text \<open>
  What the source does with the matches of one strategy when there are any:
  \<^verbatim>\<open>
    if len(matches) == 1:
        return matches[0]
    elif len(matches) > 1:
        if csv_size > 0:
            size_matches = [img for img in matches if abs(img['size'] - csv_size) <= size_tolerance]
            if len(size_matches) == 1:
                return size_matches[0]
        return disambiguate_matches(csv_row, matches)
  \<close>
\<close>

definition decide ::
  "csv_row \<Rightarrow> int \<Rightarrow> rat \<Rightarrow> image list \<Rightarrow> error + image option" where
  "decide csv_row csv_size size_tolerance matches =
     (if length matches = 1 then Inr (Some (matches ! 0))
      else (let size_matches = filter (within_tolerance size_tolerance csv_size) matches
            in if csv_size > 0 \<and> length size_matches = 1 then Inr (Some (size_matches ! 0))
               else disambiguate_matches csv_row matches))"

text \<open>
  The last loop of the source, over all images in their order:
  \<^verbatim>\<open>
    for img in images:
        img_base = os.path.splitext(img['filename'])[0].lower()
        if csv_size > 0 and abs(img['size'] - csv_size) <= 1024:
            return img
        csv_words = set(base_filename.split())
        img_words = set(img_base.split())
        common_words = csv_words.intersection(img_words)
        if (len(common_words) >= 2 or any(len(word) > 5 for word in common_words)):
            return img
    return None
  \<close>
\<close>

definition common_words :: "string \<Rightarrow> image \<Rightarrow> string set" where
  "common_words base_filename img =
     set (str_split base_filename) \<inter> set (str_split (lower (fst (splitext (filename img)))))"

text \<open>At least two common words, or one common word of more than five characters.\<close>

definition word_overlap :: "string \<Rightarrow> image \<Rightarrow> bool" where
  "word_overlap base_filename img =
     (card (common_words base_filename img) \<ge> 2 \<or>
      (\<exists>word \<in> common_words base_filename img. length word > 5))"

fun partial_match :: "string \<Rightarrow> int \<Rightarrow> image list \<Rightarrow> image option" where
  "partial_match base_filename csv_size [] = None"
| "partial_match base_filename csv_size (img # images) =
     (if csv_size > 0 \<and> \<bar>size_bytes img - csv_size\<bar> \<le> 1024 then Some img
      else if word_overlap base_filename img then Some img
      else partial_match base_filename csv_size images)"

text \<open>The loop over the strategies; when none has a match, the last loop runs.\<close>

fun apply_strategies ::
  "csv_row \<Rightarrow> string \<Rightarrow> int \<Rightarrow> rat \<Rightarrow> image list \<Rightarrow> (image \<Rightarrow> bool) list
     \<Rightarrow> error + image option" where
  "apply_strategies csv_row csv_filename csv_size size_tolerance images [] =
     Inr (partial_match (base_filename_of csv_filename) csv_size images)"
| "apply_strategies csv_row csv_filename csv_size size_tolerance images (strategy # rest) =
     (let matches = filter strategy images
      in if length matches \<ge> 1 then decide csv_row csv_size size_tolerance matches
         else apply_strategies csv_row csv_filename csv_size size_tolerance images rest)"

text \<open>
  The head of the function:
  \<^verbatim>\<open>
    if not images:
        return None
    filename = csv_row['Filename'].strip()
    csv_size = int(csv_row.get('File Size', 0) or 0)
    ...
    size_tolerance = min(csv_size * 0.05, 100 * 1024) if csv_size > 0 else 0
  \<close>
  A row without the column \<^verbatim>\<open>Filename\<close> raises \<^verbatim>\<open>KeyError\<close>, a missing cell
  there \<^verbatim>\<open>AttributeError\<close>, a size cell that \<^verbatim>\<open>int\<close> does not read
  \<^verbatim>\<open>ValueError\<close>, and a size too large for a floating-point number
  \<^verbatim>\<open>OverflowError\<close>; the source catches none of them.
\<close>

definition find_best_match :: "csv_row \<Rightarrow> image list \<Rightarrow> error + image option" where
  "find_best_match csv_row images =
     (if images = [] then Inr None
      else case csv_row ''Filename'' of
          None \<Rightarrow> Inl KeyError
        | Some PyNone \<Rightarrow> Inl AttributeError
        | Some (PyStr f) \<Rightarrow>
            (case csv_size_of csv_row of
               Inl e \<Rightarrow> Inl e
             | Inr csv_size \<Rightarrow>
                 (case size_tolerance_of csv_size of
                    Inl e \<Rightarrow> Inl e
                  | Inr size_tolerance \<Rightarrow>
                      apply_strategies csv_row (strip f) csv_size size_tolerance images
                        (strategies (strip f) csv_size size_tolerance))))"

section \<open>Notions of the specification\<close>

text \<open>Candidate \<open>i\<close> of a list is the one whose measure is strictly below the measure of
  every other candidate of the list.\<close>

definition uniquely_least :: "('a \<Rightarrow> 'b::linorder) \<Rightarrow> 'a list \<Rightarrow> nat \<Rightarrow> bool" where
  "uniquely_least f xs i = (i < length xs \<and> (\<forall>j<length xs. j \<noteq> i \<longrightarrow> f (xs ! i) < f (xs ! j)))"

section \<open>Example rows and image records\<close>

text \<open>An image record with the given file name, byte size, embedded original name and
  modification time; the other fields are as for a file without embedded metadata.\<close>

definition img_of :: "string \<Rightarrow> int \<Rightarrow> string \<Rightarrow> string \<Rightarrow> image" where
  "img_of f s r md =
     \<lparr>path = ''/work/'' @ f, filename = f, size_bytes = s, raw_filename = r, width = 0,
      height = 0, create_date = [], date_time_original = [], modify_date = md,
      camera_model = [], lens = []\<rparr>"

text \<open>A row with a declared size and one file of that name and size.\<close>

definition row_img001 :: csv_row where
  "row_img001 = [''Filename'' \<mapsto> PyStr ''IMG_001.jpg'', ''File Size'' \<mapsto> PyStr ''500000'']"

definition img001 :: image where
  "img001 = img_of ''IMG_001.jpg'' 500000 [] []"

text \<open>A row of declared size 1000000 and two candidates of sizes 1100000 and 1300000.\<close>

definition row_report :: csv_row where
  "row_report = [''Filename'' \<mapsto> PyStr ''report.jpg'', ''File Size'' \<mapsto> PyStr ''1000000'']"

definition report_near :: image where
  "report_near = img_of ''first.jpg'' 1100000 [] []"

definition report_far :: image where
  "report_far = img_of ''second.jpg'' 1300000 [] []"

text \<open>A row without a size column, and two exports of one camera file, equal in size.\<close>

definition row_raw :: csv_row where
  "row_raw = [''Filename'' \<mapsto> PyStr ''IMG_0001.jpg'']"

definition export_a :: image where
  "export_a = img_of ''export-a.jpg'' 2000 ''IMG_0001.CR2'' []"

definition export_b :: image where
  "export_b = img_of ''export-b.jpg'' 2000 ''IMG_0001.CR2'' []"

definition stranger :: image where
  "stranger = img_of ''zzz.png'' 10 [] []"

definition small_file :: image where
  "small_file = img_of ''export-c.jpg'' 300 ''IMG_0001.CR2'' []"

definition smaller_file :: image where
  "smaller_file = img_of ''export-d.jpg'' 200 ''IMG_0001.CR2'' []"

text \<open>A row of declared size 0 and a file of 1024 bytes; files 1024 and 1025 bytes
  above a declared size of 500000.\<close>

definition row_zero :: csv_row where
  "row_zero = [''Filename'' \<mapsto> PyStr ''IMG_0001.jpg'', ''File Size'' \<mapsto> PyStr ''0'']"

definition kib_file :: image where
  "kib_file = img_of ''k.jpg'' 1024 [] []"

definition off_1024 :: image where
  "off_1024 = img_of ''p.jpg'' 501024 [] []"

definition off_1025 :: image where
  "off_1025 = img_of ''q.jpg'' 501025 [] []"


text \<open>A row whose size cell is not a numeral.\<close>

definition row_bad_size :: csv_row where
  "row_bad_size = [''Filename'' \<mapsto> PyStr ''IMG_0001.jpg'', ''File Size'' \<mapsto> PyStr ''1.2 MB'']"

text \<open>The rows and candidates of the legacy naming convention.\<close>

definition row_jhr42 :: csv_row where
  "row_jhr42 = [''Filename'' \<mapsto> PyStr ''JHR-42.jpg'']"

definition row_jhr042 :: csv_row where
  "row_jhr042 = [''Filename'' \<mapsto> PyStr ''JHR-042.jpg'']"

definition jobb_042 :: image where
  "jobb_042 =
     img_of (''Jobb bonus i Lillestr'' @ [CHR 0xF8] @ ''m kommune 042.jpg'') 2000000 [] []"

definition jobb_043 :: image where
  "jobb_043 =
     img_of (''Jobb bonus i Lillestr'' @ [CHR 0xF8] @ ''m kommune 043.jpg'') 2100000 [] []"

text \<open>A row of declared size 0 whose words one candidate shares, and a small file
  of another name.\<close>

definition row_summer :: csv_row where
  "row_summer =
     [''Filename'' \<mapsto> PyStr ''summer holiday pictures.jpg'', ''File Size'' \<mapsto> PyStr ''0'']"

definition summer_words :: image where
  "summer_words = img_of ''holiday pictures from summer.jpg'' 5000000 [] []"

definition tiny_file :: image where
  "tiny_file = img_of ''unrelated.jpg'' 500 [] []"




text \<open>A row with a publishing date; two candidates of exactly the declared size and
  without a modification time, and a larger one modified ten seconds after the
  publishing date.\<close>

definition row_dated :: csv_row where
  "row_dated =
     [''Filename'' \<mapsto> PyStr ''x.jpg'', ''File Size'' \<mapsto> PyStr ''1000'',
      ''Published Date'' \<mapsto> PyStr ''2024-01-01 12:00:00'']"

definition exact_a :: image where
  "exact_a = img_of ''a1.jpg'' 1000 [] []"

definition exact_b :: image where
  "exact_b = img_of ''a2.jpg'' 1000 [] []"

definition dated_c :: image where
  "dated_c = img_of ''a3.jpg'' 5000 [] ''2024:01:01 12:00:10''"

text \<open>A row whose declared size, \<open>2 \<cdot> 10\<^sup>3\<^sup>0\<^sup>8\<close>, is a numeral of 309 digits.\<close>

definition row_huge :: csv_row where
  "row_huge =
     [''Filename'' \<mapsto> PyStr ''photo.png'',
      ''File Size'' \<mapsto> PyStr (CHR ''2'' # replicate 308 CHR ''0'')]"

section \<open>Lemmas on the model\<close>

lemma filter_single_iff:
  "filter P xs = [x] \<longleftrightarrow>
     (\<exists>i<length xs. xs ! i = x \<and> P x \<and> (\<forall>j<length xs. j \<noteq> i \<longrightarrow> \<not> P (xs ! j)))"
  (is "?L xs \<longleftrightarrow> ?R xs")
proof (induction xs)
  case Nil
  then show ?case by simp
next
  case (Cons a xs)
  show ?case
  proof (cases "P a")
    case True
    have l: "?L (a # xs) \<longleftrightarrow> a = x \<and> (\<forall>y\<in>set xs. \<not> P y)"
      using True by (auto simp: filter_empty_conv)
    have "?R (a # xs) \<longleftrightarrow> a = x \<and> (\<forall>y\<in>set xs. \<not> P y)"
    proof
      assume "?R (a # xs)"
      then obtain i where i: "i < length (a # xs)" "(a # xs) ! i = x" "P x"
        "\<forall>j<length (a # xs). j \<noteq> i \<longrightarrow> \<not> P ((a # xs) ! j)" by blast
      have "i = 0"
      proof (rule ccontr)
        assume "i \<noteq> 0"
        with i(4) have "\<not> P ((a # xs) ! 0)" by auto
        with True show False by simp
      qed
      with i(2) have ax: "a = x" by simp
      have "\<not> P y" if "y \<in> set xs" for y
      proof -
        from that obtain k where k: "k < length xs" "xs ! k = y" by (auto simp: in_set_conv_nth)
        with i(4) \<open>i = 0\<close> have "\<not> P ((a # xs) ! Suc k)" by auto
        with k show ?thesis by simp
      qed
      with ax show "a = x \<and> (\<forall>y\<in>set xs. \<not> P y)" by blast
    next
      assume r: "a = x \<and> (\<forall>y\<in>set xs. \<not> P y)"
      have "\<not> P ((a # xs) ! j)" if "j < length (a # xs)" "j \<noteq> 0" for j
      proof -
        from that obtain k where "j = Suc k" "k < length xs" by (cases j) auto
        with r show ?thesis by simp
      qed
      with r True have "0 < length (a # xs) \<and> (a # xs) ! 0 = x \<and> P x \<and>
          (\<forall>j<length (a # xs). j \<noteq> 0 \<longrightarrow> \<not> P ((a # xs) ! j))" by simp
      then show "?R (a # xs)" by blast
    qed
    with l show ?thesis by simp
  next
    case False
    have l: "?L (a # xs) \<longleftrightarrow> ?R xs" using False Cons.IH by simp
    have "?R (a # xs) \<longleftrightarrow> ?R xs"
    proof
      assume "?R (a # xs)"
      then obtain i where i: "i < length (a # xs)" "(a # xs) ! i = x" "P x"
        "\<forall>j<length (a # xs). j \<noteq> i \<longrightarrow> \<not> P ((a # xs) ! j)" by blast
      from i(2,3) False have "i \<noteq> 0" by (cases i) auto
      then obtain k where k: "i = Suc k" by (cases i) auto
      have "\<not> P (xs ! j)" if "j < length xs" "j \<noteq> k" for j
        using i(4) that k by (auto dest: spec [of _ "Suc j"])
      with i k have "k < length xs \<and> xs ! k = x \<and> P x \<and> (\<forall>j<length xs. j \<noteq> k \<longrightarrow> \<not> P (xs ! j))"
        by simp
      then show "?R xs" by blast
    next
      assume "?R xs"
      then obtain k where k: "k < length xs" "xs ! k = x" "P x"
        "\<forall>j<length xs. j \<noteq> k \<longrightarrow> \<not> P (xs ! j)" by blast
      have "\<not> P ((a # xs) ! j)" if "j < length (a # xs)" "j \<noteq> Suc k" for j
        using that k(4) False by (cases j) auto
      with k have "Suc k < length (a # xs) \<and> (a # xs) ! Suc k = x \<and> P x \<and>
          (\<forall>j<length (a # xs). j \<noteq> Suc k \<longrightarrow> \<not> P ((a # xs) ! j))" by simp
      then show "?R (a # xs)" by blast
    qed
    with l show ?thesis by simp
  qed
qed


lemma at_diff_map: "at_diff ms (map f ms) l = filter (\<lambda>m. f m = l) ms"
  by (induction ms) (simp_all add: at_diff_def)

text \<open>The candidates at the least difference are one candidate exactly when one
  candidate's difference is strictly below every other's.\<close>

lemma at_diff_least_single:
  fixes f :: "image \<Rightarrow> 'b::linorder"
  assumes "ms \<noteq> []"
  shows "at_diff ms (map f ms) (min_list (map f ms)) = [m] \<longleftrightarrow>
           (\<exists>i. uniquely_least f ms i \<and> ms ! i = m)"
proof -
  let ?M = "min_list (map f ms)"
  have M: "?M = Min (f ` set ms)" using assms by (simp add: min_list_Min)
  have le: "?M \<le> f y" if "y \<in> set ms" for y using that M by simp
  have ex: "\<exists>y\<in>set ms. f y = ?M"
  proof -
    have "Min (f ` set ms) \<in> f ` set ms" using assms by (intro Min_in) auto
    then show ?thesis using M by auto
  qed
  show ?thesis
  proof
    assume "at_diff ms (map f ms) ?M = [m]"
    then have "filter (\<lambda>m. f m = ?M) ms = [m]" by (simp add: at_diff_map)
    then obtain i where i: "i < length ms" "ms ! i = m" "f m = ?M"
      "\<forall>j<length ms. j \<noteq> i \<longrightarrow> f (ms ! j) \<noteq> ?M"
      unfolding filter_single_iff by blast
    have "f (ms ! i) < f (ms ! j)" if "j < length ms" "j \<noteq> i" for j
    proof -
      from that i(4) have "f (ms ! j) \<noteq> ?M" by blast
      moreover have "?M \<le> f (ms ! j)" using that by (intro le) simp
      ultimately show ?thesis using i(2,3) by simp
    qed
    with i show "\<exists>i. uniquely_least f ms i \<and> ms ! i = m"
      unfolding uniquely_least_def by blast
  next
    assume "\<exists>i. uniquely_least f ms i \<and> ms ! i = m"
    then obtain i where i: "i < length ms" "ms ! i = m"
      "\<forall>j<length ms. j \<noteq> i \<longrightarrow> f (ms ! i) < f (ms ! j)"
      unfolding uniquely_least_def by blast
    from ex obtain k where k: "k < length ms" "f (ms ! k) = ?M"
      by (auto simp: in_set_conv_nth)
    have "k = i"
    proof (rule ccontr)
      assume "k \<noteq> i"
      with i(3) k have "f (ms ! i) < ?M" by auto
      moreover have "?M \<le> f (ms ! i)" using i(1) by (intro le) simp
      ultimately show False by simp
    qed
    with k i have fm: "f m = ?M" by simp
    have "\<forall>j<length ms. j \<noteq> i \<longrightarrow> f (ms ! j) \<noteq> ?M"
      using i(3) i(2) fm by auto
    with i fm have "filter (\<lambda>m. f m = ?M) ms = [m]"
      unfolding filter_single_iff by blast
    then show "at_diff ms (map f ms) ?M = [m]" by (simp add: at_diff_map)
  qed
qed


lemma at_diff_subset: "set (at_diff ms ds l) \<subseteq> set ms"
  unfolding at_diff_def by (auto dest: set_zip_leftD)

lemma singleton_nth0: "length xs = 1 \<Longrightarrow> xs ! 0 \<in> set xs"
  by (cases xs) simp_all

lemma at_diff_nth0: "length (at_diff ms ds l) = 1 \<Longrightarrow> at_diff ms ds l ! 0 \<in> set ms"
  using at_diff_subset [of ms ds l] singleton_nth0 [of "at_diff ms ds l"] by blast

lemma filter_nth0: "length (filter P xs) = 1 \<Longrightarrow> filter P xs ! 0 \<in> set xs"
  using singleton_nth0 [of "filter P xs"] by auto

lemma by_date_mem: "by_date csv_row ms = Some r \<Longrightarrow> r \<in> set ms"
  unfolding by_date_def Let_def
  by (auto split: option.splits if_splits simp: at_diff_nth0)

lemma disambiguate_mem: "disambiguate_matches csv_row ms = Inr (Some r) \<Longrightarrow> r \<in> set ms"
  unfolding disambiguate_matches_def Let_def
  by (auto split: sum.splits if_splits simp: at_diff_nth0 singleton_nth0 by_date_mem)

lemma decide_mem: "decide csv_row cs tol ms = Inr (Some r) \<Longrightarrow> r \<in> set ms"
  unfolding decide_def Let_def
  by (auto split: if_splits simp: singleton_nth0 filter_nth0 disambiguate_mem)

lemma partial_match_mem: "partial_match b cs imgs = Some r \<Longrightarrow> r \<in> set imgs"
  by (induction imgs) (auto split: if_splits)

lemma apply_strategies_mem:
  "apply_strategies csv_row f cs tol imgs ss = Inr (Some r) \<Longrightarrow> r \<in> set imgs"
proof (induction ss)
  case Nil
  then show ?case by (simp add: partial_match_mem)
next
  case (Cons s ss)
  show ?case
  proof (cases "length (filter s imgs) \<ge> 1")
    case True
    with Cons.prems have "decide csv_row cs tol (filter s imgs) = Inr (Some r)" by simp
    then have "r \<in> set (filter s imgs)" by (rule decide_mem)
    then show ?thesis by simp
  next
    case False
    with Cons show ?thesis by simp
  qed
qed

lemma find_best_match_mem: "find_best_match csv_row imgs = Inr (Some r) \<Longrightarrow> r \<in> set imgs"
  unfolding find_best_match_def
  by (auto split: if_splits option.splits cell.splits sum.splits dest: apply_strategies_mem)

text \<open>The first step of the disambiguation, by the list of the candidates at the least
  size difference.\<close>

lemma disambiguate_by_size:
  assumes "csv_size_of csv_row = Inr cs" and "2 \<le> length ms"
  shows "disambiguate_matches csv_row ms =
           (case at_diff ms (map (size_diff_of cs) ms) (min_list (map (size_diff_of cs) ms)) of
              [m] \<Rightarrow> Inr (Some m)
            | _ \<Rightarrow> Inr (by_date csv_row ms))"
proof -
  from assms(2) have ne: "ms \<noteq> []" "length ms \<noteq> 1" by auto
  let ?S = "at_diff ms (map (size_diff_of cs) ms) (min_list (map (size_diff_of cs) ms))"
  have "disambiguate_matches csv_row ms =
          (if length ?S = 1 then Inr (Some (?S ! 0)) else Inr (by_date csv_row ms))"
    using ne assms(1) by (simp add: disambiguate_matches_def Let_def)
  also have "\<dots> = (case ?S of [m] \<Rightarrow> Inr (Some m) | _ \<Rightarrow> Inr (by_date csv_row ms))"
    by (cases ?S rule: list.exhaust; cases "tl ?S") (auto split: list.splits)
  finally show ?thesis .
qed


text \<open>The comparison with the size tolerance, in integers.\<close>

lemma tolerance_int:
  "(of_int d :: rat) \<le> min (of_int c * (5 / 100)) (100 * 1024) \<longleftrightarrow> 20 * d \<le> c \<and> d \<le> 102400"
proof -
  have "(of_int d :: rat) \<le> of_int c * (5 / 100) \<longleftrightarrow> (of_int (20 * d) :: rat) \<le> of_int c"
    by (simp add: field_simps)
  also have "\<dots> \<longleftrightarrow> 20 * d \<le> c" by (simp only: of_int_le_iff)
  finally have a: "(of_int d :: rat) \<le> of_int c * (5 / 100) \<longleftrightarrow> 20 * d \<le> c" .
  have "(of_int d :: rat) \<le> 100 * 1024 \<longleftrightarrow> (of_int d :: rat) \<le> of_int 102400" by simp
  also have "\<dots> \<longleftrightarrow> d \<le> 102400" by (simp only: of_int_le_iff)
  finally have b: "(of_int d :: rat) \<le> 100 * 1024 \<longleftrightarrow> d \<le> 102400" .
  show ?thesis by (simp only: min.bounded_iff a b)
qed

lemma within_tolerance_int:
  assumes "size_tolerance_of csv_size = Inr tol"
  shows "within_tolerance tol csv_size img =
     (if csv_size > 0
      then 20 * \<bar>size_bytes img - csv_size\<bar> \<le> csv_size \<and> \<bar>size_bytes img - csv_size\<bar> \<le> 102400
      else \<bar>size_bytes img - csv_size\<bar> \<le> 0)"
proof (cases "csv_size > 0")
  case True
  with assms have "tol = min (of_int csv_size * (5 / 100)) (100 * 1024)"
    by (simp add: size_tolerance_of_def split: if_splits)
  with True show ?thesis
    unfolding within_tolerance_def by (simp only: tolerance_int if_True)
next
  case False
  with assms have "tol = 0" by (simp add: size_tolerance_of_def)
  with False show ?thesis
    unfolding within_tolerance_def by (simp only: if_False of_int_le_0_iff)
qed

text \<open>A declared size of 309 digits: the tolerance is not computed, and the function
  raises whatever the candidates are.\<close>

lemma huge_size_raises:
  "csv_size_of row_huge = Inr (2 * 10 ^ 308) \<and>
   size_tolerance_of (2 * 10 ^ 308) = Inl OverflowError \<and>
   find_best_match row_huge [stranger] = Inl OverflowError"
  by code_simp

text \<open>When no strategy has a match, the loop over the strategies ends in the last
  loop, which returns the first image passing one of its two tests.\<close>

lemma apply_strategies_none:
  "\<forall>s\<in>set ss. filter s imgs = [] \<Longrightarrow>
     apply_strategies csv_row f cs tol imgs ss =
       Inr (partial_match (base_filename_of f) cs imgs)"
  by (induction ss) simp_all

lemma partial_match_find:
  "partial_match b cs imgs =
     find (\<lambda>img. (cs > 0 \<and> \<bar>size_bytes img - cs\<bar> \<le> 1024) \<or> word_overlap b img) imgs"
  by (induction imgs) simp_all





text \<open>The second step of the disambiguation resolves a candidate exactly when the
  publishing date parses and the candidate's time difference is below the tolerance and
  strictly below every other candidate's.\<close>

lemma by_date_iff:
  assumes "ms \<noteq> []"
  shows "by_date csv_row ms = Some m \<longleftrightarrow>
           (\<exists>d i. publish_date csv_row = Some d \<and> uniquely_least (date_diff_of d) ms i \<and>
                  ms ! i = m \<and> date_diff_of d m < DATE_TOLERANCE)"
proof (cases "publish_date csv_row")
  case None
  then show ?thesis by (simp add: by_date_def)
next
  case (Some d)
  let ?M = "min_list (map (date_diff_of d) ms)"
  let ?S = "at_diff ms (map (date_diff_of d) ms) ?M"
  have single: "?S = [m] \<longleftrightarrow> (\<exists>i. uniquely_least (date_diff_of d) ms i \<and> ms ! i = m)"
    by (rule at_diff_least_single [OF assms])
  have least: "date_diff_of d m = ?M" if "?S = [m]"
  proof -
    from that have "m \<in> set (filter (\<lambda>x. date_diff_of d x = ?M) ms)"
      by (simp add: at_diff_map)
    then show ?thesis by simp
  qed
  have "by_date csv_row ms = Some m \<longleftrightarrow> ?M < DATE_TOLERANCE \<and> ?S = [m]"
  proof -
    have "length ?S = 1 \<and> ?S ! 0 = m \<longleftrightarrow> ?S = [m]"
      by (cases ?S rule: list.exhaust; cases "tl ?S") auto
    then show ?thesis using Some by (auto simp: by_date_def Let_def)
  qed
  also have "\<dots> \<longleftrightarrow> ?S = [m] \<and> date_diff_of d m < DATE_TOLERANCE"
    using least by (cases "?S = [m]") simp_all
  also have "\<dots> \<longleftrightarrow> (\<exists>i. uniquely_least (date_diff_of d) ms i \<and> ms ! i = m) \<and>
      date_diff_of d m < DATE_TOLERANCE"
    by (simp only: single)
  finally show ?thesis using Some by auto
qed


text \<open>When two candidates share the least measure, no candidate is strictly below
  all others.\<close>

lemma tie_not_uniquely_least:
  assumes "i < length xs" and "j < length xs" and "i \<noteq> j" and "f (xs ! i) = f (xs ! j)"
    and "\<forall>y\<in>set xs. f (xs ! i) \<le> f y"
  shows "\<nexists>k. uniquely_least f xs k"
proof
  assume "\<exists>k. uniquely_least f xs k"
  then obtain k where k: "k < length xs" "\<forall>l<length xs. l \<noteq> k \<longrightarrow> f (xs ! k) < f (xs ! l)"
    unfolding uniquely_least_def by blast
  show False
  proof (cases "k = i")
    case True
    with k(2) assms(2,3) have "f (xs ! i) < f (xs ! j)" by auto
    with assms(4) show False by simp
  next
    case False
    with k(2) assms(1) have "f (xs ! k) < f (xs ! i)" by auto
    moreover from k(1) assms(5) have "f (xs ! i) \<le> f (xs ! k)" by simp
    ultimately show False by simp
  qed
qed

section \<open>The claims\<close>



text \<open>
  Claim C2, at a row that matches two indistinguishable candidates and at a row that
  matches none: the source returns the same value, \<^verbatim>\<open>None\<close>, for both.
\<close>

theorem ambiguous_is_none:
  "filter (strategies ''IMG_0001.jpg'' 0 0 ! 0) [export_a, export_b] = [export_a, export_b] \<and>
   find_best_match row_raw [export_a, export_b] = Inr None \<and>
   find_best_match row_raw [stranger] = Inr None"
  by code_simp

text \<open>
  Claim C3, as stated: for the row \<open>JHR-42.jpg\<close> and the two candidates numbered 042
  and 043 the candidate 042 is resolved. The source returns no match: the row's digits
  are \<open>42\<close>, the candidate's are \<open>042\<close>, and the strategy compares them as strings.
\<close>

theorem jhr42_counterexample:
  "find_best_match row_jhr42 [jobb_042, jobb_043] = Inr None \<and>
   \<not> (strategies ''JHR-42.jpg'' 0 0 ! 5) jobb_042"
  by code_simp

text \<open>
  Claim C3, amended: for the row \<open>JHR-42.jpg\<close> the digit strings differ, no strategy
  and no test of the last loop matches, and the result is no match; for the row
  \<open>JHR-042.jpg\<close> the first five strategies match nothing, the sixth matches the
  candidate 042 alone, and that candidate is resolved.
\<close>

theorem jhr_digit_strings:
  "get_numbers ''JHR-42.jpg'' = ''42'' \<and>
   get_numbers (filename jobb_042) = ''042'' \<and>
   size_tolerance_of 0 = Inr 0 \<and>
   list_all (\<lambda>s. filter s [jobb_042, jobb_043] = []) (strategies ''JHR-42.jpg'' 0 0) \<and>
   find_best_match row_jhr42 [jobb_042, jobb_043] = Inr None \<and>
   list_all (\<lambda>s. filter s [jobb_042, jobb_043] = [])
     (take 5 (strategies ''JHR-042.jpg'' 0 0)) \<and>
   filter (strategies ''JHR-042.jpg'' 0 0 ! 5) [jobb_042, jobb_043] = [jobb_042] \<and>
   find_best_match row_jhr042 [jobb_042, jobb_043] = Inr (Some jobb_042)"
  by code_simp

text \<open>
  Claim C4, as stated: when no strategy matches, the last loop returns the first
  candidate whose byte size is within 1024 bytes of the declared size, before any
  candidate that shares words with the row. It fails for a row of declared size 0: the
  small file is within 1024 bytes of 0, and the candidate that shares words with the
  row, which is not, is returned.
\<close>

theorem fallback_counterexample:
  "csv_size_of row_summer = Inr 0 \<and> size_tolerance_of 0 = Inr 0 \<and>
   list_all (\<lambda>s. filter s [summer_words, tiny_file] = [])
     (strategies ''summer holiday pictures.jpg'' 0 0) \<and>
   \<bar>size_bytes tiny_file - 0\<bar> \<le> 1024 \<and>
   \<not> \<bar>size_bytes summer_words - 0\<bar> \<le> 1024 \<and>
   find_best_match row_summer [summer_words, tiny_file] = Inr (Some summer_words) \<and>
   summer_words \<noteq> tiny_file"
  by code_simp

text \<open>
  Claim C4, amended: for a row that is read without an exception (a file name, a
  readable size, a size tolerance that is computed) and a candidate list where every
  strategy matches zero candidates, no candidate is within 1024 bytes of a positive
  declared size (the size test of the last loop is the test of the second strategy),
  and the result is the first candidate of the list that shares at least two words, or
  one word of more than five characters, with the row's extension-stripped lower-cased
  base name; no match when there is none.
\<close>

theorem fallback_first_word_overlap:
  assumes "images \<noteq> []"
    and "csv_row ''Filename'' = Some (PyStr f)"
    and "csv_size_of csv_row = Inr csv_size"
    and "size_tolerance_of csv_size = Inr size_tolerance"
    and "\<forall>s\<in>set (strategies (strip f) csv_size size_tolerance). filter s images = []"
  shows "find (\<lambda>img. csv_size > 0 \<and> \<bar>size_bytes img - csv_size\<bar> \<le> 1024) images = None \<and>
         find_best_match csv_row images =
           Inr (find (word_overlap (base_filename_of (strip f))) images)"
proof -
  let ?size_ok = "\<lambda>img. csv_size > 0 \<and> \<bar>size_bytes img - csv_size\<bar> \<le> 1024"
  have "?size_ok \<in> set (strategies (strip f) csv_size size_tolerance)"
    by (simp add: strategies_def Let_def)
  with assms(5) have "filter ?size_ok images = []" by blast
  then have no_size: "\<forall>img\<in>set images. \<not> ?size_ok img"
    by (simp add: filter_empty_conv)
  then have a: "find ?size_ok images = None" by (simp add: find_None_iff)
  have "find_best_match csv_row images =
      apply_strategies csv_row (strip f) csv_size size_tolerance images
        (strategies (strip f) csv_size size_tolerance)"
    using assms(1-4) by (simp add: find_best_match_def)
  also have "\<dots> = Inr (partial_match (base_filename_of (strip f)) csv_size images)"
    using assms(5) by (rule apply_strategies_none)
  also have "partial_match (base_filename_of (strip f)) csv_size images =
      find (\<lambda>img. ?size_ok img \<or> word_overlap (base_filename_of (strip f)) img) images"
    by (rule partial_match_find)
  also have "\<dots> = find (word_overlap (base_filename_of (strip f))) images"
    using no_size by (intro find_cong) auto
  finally show ?thesis using a by blast
qed

theorem fallback_first_word_overlap_witness:
  "[tiny_file, summer_words] \<noteq> [] \<and>
   row_summer ''Filename'' = Some (PyStr ''summer holiday pictures.jpg'') \<and>
   csv_size_of row_summer = Inr 0 \<and>
   size_tolerance_of 0 = Inr 0 \<and>
   list_all (\<lambda>s. filter s [tiny_file, summer_words] = [])
     (strategies (strip ''summer holiday pictures.jpg'') 0 0) \<and>
   find (word_overlap (base_filename_of (strip ''summer holiday pictures.jpg'')))
     [tiny_file, summer_words] = Some summer_words \<and>
   find_best_match row_summer [tiny_file, summer_words] = Inr (Some summer_words)"
proof -
  have h1: "[tiny_file, summer_words] \<noteq> []" by simp
  have h2: "row_summer ''Filename'' = Some (PyStr ''summer holiday pictures.jpg'')"
    by (simp add: row_summer_def)
  have h3: "csv_size_of row_summer = Inr 0" by code_simp
  have ht: "size_tolerance_of 0 = Inr 0" by code_simp
  have h4: "list_all (\<lambda>s. filter s [tiny_file, summer_words] = [])
     (strategies (strip ''summer holiday pictures.jpg'') 0 0)" by code_simp
  then have h4': "\<forall>s\<in>set (strategies (strip ''summer holiday pictures.jpg'') 0 0).
      filter s [tiny_file, summer_words] = []" by (simp add: list_all_iff)
  have w: "find (word_overlap (base_filename_of (strip ''summer holiday pictures.jpg'')))
     [tiny_file, summer_words] = Some summer_words" by code_simp
  have r: "find_best_match row_summer [tiny_file, summer_words] =
      Inr (find (word_overlap (base_filename_of (strip ''summer holiday pictures.jpg'')))
        [tiny_file, summer_words])"
    by (rule conjunct2 [OF fallback_first_word_overlap [OF h1 h2 h3 ht h4']])
  from h1 h2 h3 ht h4 w r show ?thesis by simp
qed

text \<open>
  Claim C5, at a row whose size cell is not a numeral: both functions raise
  \<^verbatim>\<open>ValueError\<close>, which nothing in the source catches.
\<close>

theorem malformed_size_raises:
  "find_best_match row_bad_size [export_a] = Inl ValueError \<and>
   disambiguate_matches row_bad_size [export_a, export_b] = Inl ValueError"
  by code_simp

text \<open>
  Claim C6, as stated: the candidates at the least size difference are kept, and when
  they are more than one and no time stamp separates them the result is ambiguous. It
  fails for two candidates of exactly the declared size without modification times and
  a third, larger candidate modified ten seconds after the publishing date: the two are
  the candidates kept, and the third is returned.
\<close>

theorem disambiguate_counterexample:
  "csv_size_of row_dated = Inr 1000 \<and>
   at_diff [exact_a, exact_b, dated_c] (map (size_diff_of 1000) [exact_a, exact_b, dated_c])
     (min_list (map (size_diff_of 1000) [exact_a, exact_b, dated_c])) = [exact_a, exact_b] \<and>
   size_diff_of 1000 exact_a < size_diff_of 1000 dated_c \<and>
   disambiguate_matches row_dated [exact_a, exact_b, dated_c] = Inr (Some dated_c)"
  by code_simp

text \<open>
  Claim C6, amended: for a row with a readable size and a tie set of two or more
  candidates, the result is a candidate of the tie set or ambiguous, never an error.
  A candidate whose size difference is strictly below every other candidate's is
  resolved. When there is no such candidate, a candidate is resolved exactly when the
  publishing date parses and the candidate's time difference is below 300 seconds and
  strictly below the time difference of every other candidate of the whole tie set,
  those not at the least size difference included (a modification time that does not
  parse is infinitely far); otherwise the result is ambiguous.
\<close>

theorem disambiguate_steps:
  assumes "csv_size_of csv_row = Inr csv_size" and "2 \<le> length matches"
  shows "(disambiguate_matches csv_row matches = Inr None \<or>
          (\<exists>m\<in>set matches. disambiguate_matches csv_row matches = Inr (Some m))) \<and>
         (\<forall>i. uniquely_least (size_diff_of csv_size) matches i \<longrightarrow>
              disambiguate_matches csv_row matches = Inr (Some (matches ! i))) \<and>
         ((\<nexists>i. uniquely_least (size_diff_of csv_size) matches i) \<longrightarrow>
            (\<forall>m. disambiguate_matches csv_row matches = Inr (Some m) \<longleftrightarrow>
               (\<exists>d i. publish_date csv_row = Some d \<and>
                      uniquely_least (date_diff_of d) matches i \<and> matches ! i = m \<and>
                      date_diff_of d m < DATE_TOLERANCE)))"
proof -
  from assms(2) have ne: "matches \<noteq> []" by auto
  let ?S = "at_diff matches (map (size_diff_of csv_size) matches)
      (min_list (map (size_diff_of csv_size) matches))"
  have step: "disambiguate_matches csv_row matches =
      (case ?S of [m] \<Rightarrow> Inr (Some m) | _ \<Rightarrow> Inr (by_date csv_row matches))"
    by (rule disambiguate_by_size [OF assms])
  have single: "?S = [m] \<longleftrightarrow> (\<exists>i. uniquely_least (size_diff_of csv_size) matches i \<and> matches ! i = m)"
    for m by (rule at_diff_least_single [OF ne])
  have p1: "disambiguate_matches csv_row matches = Inr None \<or>
          (\<exists>m\<in>set matches. disambiguate_matches csv_row matches = Inr (Some m))"
  proof (cases "disambiguate_matches csv_row matches")
    case (Inl e)
    with step show ?thesis by (auto split: list.splits)
  next
    case (Inr r)
    then show ?thesis by (cases r) (auto dest: disambiguate_mem)
  qed
  have p2: "disambiguate_matches csv_row matches = Inr (Some (matches ! i))"
    if "uniquely_least (size_diff_of csv_size) matches i" for i
  proof -
    from that single [of "matches ! i"] have "?S = [matches ! i]" by blast
    with step show ?thesis by simp
  qed
  have p3: "disambiguate_matches csv_row matches = Inr (Some m) \<longleftrightarrow>
               (\<exists>d i. publish_date csv_row = Some d \<and>
                      uniquely_least (date_diff_of d) matches i \<and> matches ! i = m \<and>
                      date_diff_of d m < DATE_TOLERANCE)"
    if none: "\<nexists>i. uniquely_least (size_diff_of csv_size) matches i" for m
  proof -
    have "\<nexists>x. ?S = [x]" using none single by blast
    then have "(case ?S of [m] \<Rightarrow> Inr (Some m) | _ \<Rightarrow> Inr (by_date csv_row matches)) =
        Inr (by_date csv_row matches)"
      by (cases ?S rule: list.exhaust; cases "tl ?S") auto
    with step have "disambiguate_matches csv_row matches = Inr (by_date csv_row matches)"
      by simp
    then show ?thesis using by_date_iff [OF ne, of csv_row m] by simp
  qed
  from p1 p2 p3 show ?thesis by blast
qed

theorem disambiguate_steps_witness:
  "csv_size_of row_report = Inr 1000000 \<and> 2 \<le> length [report_near, report_far] \<and>
   uniquely_least (size_diff_of 1000000) [report_near, report_far] 0 \<and>
   disambiguate_matches row_report [report_near, report_far] = Inr (Some report_near) \<and>
   csv_size_of row_dated = Inr 1000 \<and> 2 \<le> length [exact_a, exact_b, dated_c] \<and>
   (\<nexists>i. uniquely_least (size_diff_of 1000) [exact_a, exact_b, dated_c] i) \<and>
   publish_date row_dated =
     Some \<lparr>year = 2024, month = 1, day = 1, hour = 12, minute = 0, second = 0\<rparr> \<and>
   uniquely_least
     (date_diff_of \<lparr>year = 2024, month = 1, day = 1, hour = 12, minute = 0, second = 0\<rparr>)
     [exact_a, exact_b, dated_c] 2 \<and>
   date_diff_of \<lparr>year = 2024, month = 1, day = 1, hour = 12, minute = 0, second = 0\<rparr> dated_c
     < DATE_TOLERANCE \<and>
   disambiguate_matches row_dated [exact_a, exact_b, dated_c] = Inr (Some dated_c)"
proof -
  let ?d = "\<lparr>year = 2024, month = 1, day = 1, hour = 12, minute = 0, second = 0\<rparr>"
  have a1: "csv_size_of row_report = Inr 1000000" by code_simp
  have a2: "2 \<le> length [report_near, report_far]" by simp
  have sa: "size_diff_of 1000000 report_near = 100000" "size_diff_of 1000000 report_far = 300000"
    by (simp_all add: size_diff_of_def report_near_def report_far_def img_of_def)
  have a3: "uniquely_least (size_diff_of 1000000) [report_near, report_far] 0"
    by (simp add: uniquely_least_def less_Suc_eq sa)
  have "uniquely_least (size_diff_of 1000000) [report_near, report_far] 0 \<longrightarrow>
      disambiguate_matches row_report [report_near, report_far] =
        Inr (Some ([report_near, report_far] ! 0))"
    by (rule spec [OF conjunct1 [OF conjunct2 [OF disambiguate_steps [OF a1 a2]]]])
  with a3 have ra: "disambiguate_matches row_report [report_near, report_far] =
      Inr (Some report_near)" by simp
  have b1: "csv_size_of row_dated = Inr 1000" by code_simp
  have b2: "2 \<le> length [exact_a, exact_b, dated_c]" by simp
  have sb: "size_diff_of 1000 exact_a = 0" "size_diff_of 1000 exact_b = 0"
    "size_diff_of 1000 dated_c = 4000"
    by (simp_all add: size_diff_of_def exact_a_def exact_b_def dated_c_def img_of_def)
  have b3: "\<nexists>i. uniquely_least (size_diff_of 1000) [exact_a, exact_b, dated_c] i"
    by (rule tie_not_uniquely_least [of 0 _ 1]) (simp_all add: sb)
  have b4: "publish_date row_dated = Some ?d" by code_simp
  have dd: "date_diff_of ?d exact_a = \<infinity>" "date_diff_of ?d exact_b = \<infinity>"
    "date_diff_of ?d dated_c = 10"
    by code_simp+
  have b5: "uniquely_least (date_diff_of ?d) [exact_a, exact_b, dated_c] 2"
    by (simp add: uniquely_least_def less_Suc_eq dd)
  have b6: "date_diff_of ?d dated_c < DATE_TOLERANCE"
    by (simp add: dd DATE_TOLERANCE_def)
  have ex: "\<exists>d i. publish_date row_dated = Some d \<and>
      uniquely_least (date_diff_of d) [exact_a, exact_b, dated_c] i \<and>
      [exact_a, exact_b, dated_c] ! i = dated_c \<and> date_diff_of d dated_c < DATE_TOLERANCE"
    using b4 b5 b6 by (intro exI [of _ ?d] exI [of _ 2]) simp
  have "\<forall>m. disambiguate_matches row_dated [exact_a, exact_b, dated_c] = Inr (Some m) \<longleftrightarrow>
      (\<exists>d i. publish_date row_dated = Some d \<and>
         uniquely_least (date_diff_of d) [exact_a, exact_b, dated_c] i \<and>
         [exact_a, exact_b, dated_c] ! i = m \<and> date_diff_of d m < DATE_TOLERANCE)"
    by (rule mp [OF conjunct2 [OF conjunct2 [OF disambiguate_steps [OF b1 b2]]] b3])
  then have rb: "disambiguate_matches row_dated [exact_a, exact_b, dated_c] = Inr (Some dated_c)"
    using ex by (simp only:)
  from a1 a2 a3 ra b1 b2 b3 b4 b5 b6 rb show ?thesis by blast
qed



text \<open>
  Claim C8, as stated: every candidate whose byte size differs from the declared size
  by exactly 1024 bytes satisfies the second strategy. It fails for a row of declared
  size 0 and a file of 1024 bytes: the strategy asks for a positive declared size, and
  the row finds no match.
\<close>

theorem size_boundary_counterexample:
  "csv_size_of row_zero = Inr 0 \<and> size_tolerance_of 0 = Inr 0 \<and>
   \<bar>size_bytes kib_file - 0\<bar> = 1024 \<and>
   \<not> (strategies ''IMG_0001.jpg'' 0 0 ! 1) kib_file \<and>
   find_best_match row_zero [kib_file] = Inr None"
  by code_simp

text \<open>
  Claim C8, amended: for a row whose size tolerance is computed (a declared size that
  is not too large for a floating-point number) and whose declared size is positive, a
  candidate exactly 1024 bytes off satisfies the second strategy; for every row whose
  size tolerance is computed, a candidate 1025 bytes off does not satisfy it, and it
  satisfies the third strategy (the relative tolerance) exactly when the declared size
  is at least 20500.
\<close>

theorem size_boundary:
  assumes "size_tolerance_of csv_size = Inr size_tolerance"
  shows "(0 < csv_size \<and> \<bar>size_bytes img - csv_size\<bar> = 1024 \<longrightarrow>
            (strategies csv_filename csv_size size_tolerance ! 1) img) \<and>
         (\<bar>size_bytes img - csv_size\<bar> = 1025 \<longrightarrow>
            \<not> (strategies csv_filename csv_size size_tolerance ! 1) img \<and>
            ((strategies csv_filename csv_size size_tolerance ! 2) img \<longleftrightarrow> 20500 \<le> csv_size))"
  by (auto simp: strategies_def Let_def within_tolerance_int [OF assms])

theorem size_boundary_witness:
  "size_tolerance_of 500000 = Inr 25000 \<and>
   (0::int) < 500000 \<and> \<bar>size_bytes off_1024 - 500000\<bar> = 1024 \<and>
   (strategies ''IMG_001.jpg'' 500000 25000 ! 1) off_1024 \<and>
   \<bar>size_bytes off_1025 - 500000\<bar> = 1025 \<and>
   \<not> (strategies ''IMG_001.jpg'' 500000 25000 ! 1) off_1025 \<and>
   (strategies ''IMG_001.jpg'' 500000 25000 ! 2) off_1025"
proof -
  have t: "size_tolerance_of 500000 = Inr 25000" by code_simp
  have a: "(0::int) < 500000 \<and> \<bar>size_bytes off_1024 - 500000\<bar> = 1024"
    by (simp add: off_1024_def img_of_def)
  have b: "\<bar>size_bytes off_1025 - 500000\<bar> = 1025"
    by (simp add: off_1025_def img_of_def)
  have c: "(strategies ''IMG_001.jpg'' 500000 25000 ! 1) off_1024"
    by (rule mp [OF conjunct1 [OF size_boundary [OF t]] a])
  have d: "\<not> (strategies ''IMG_001.jpg'' 500000 25000 ! 1) off_1025 \<and>
      ((strategies ''IMG_001.jpg'' 500000 25000 ! 2) off_1025 \<longleftrightarrow> (20500::int) \<le> 500000)"
    by (rule mp [OF conjunct2 [OF size_boundary [OF t]] b])
  from t a b c d show ?thesis by simp
qed

text \<open>
  Claim C9. Whenever \<^const>\<open>find_best_match\<close> returns a record, the record is an
  element of the given candidate list, and any record \<^const>\<open>disambiguate_matches\<close>
  returns is an element of the tie set it was given.
\<close>

theorem result_from_pool:
  "(find_best_match csv_row images = Inr (Some r) \<longrightarrow> r \<in> set images) \<and>
   (disambiguate_matches csv_row matches = Inr (Some r') \<longrightarrow> r' \<in> set matches)"
  by (simp add: find_best_match_mem disambiguate_mem)

theorem result_from_pool_witness:
  "find_best_match row_img001 [img001] = Inr (Some img001) \<and> img001 \<in> set [img001] \<and>
   disambiguate_matches row_report [report_near, report_far] = Inr (Some report_near) \<and>
   report_near \<in> set [report_near, report_far]"
proof -
  have a: "find_best_match row_img001 [img001] = Inr (Some img001)" by code_simp
  have b: "disambiguate_matches row_report [report_near, report_far] = Inr (Some report_near)"
    by code_simp
  have m1: "img001 \<in> set [img001]"
    by (rule mp [OF conjunct1 [OF result_from_pool] a])
  have m2: "report_near \<in> set [report_near, report_far]"
    by (rule mp [OF conjunct2 [OF result_from_pool] b])
  from a b m1 m2 show ?thesis by blast
qed

text \<open>
  Claim C10. For a row whose declared size is zero and a tie set of two or more
  candidates (of non-negative byte sizes), the first step of the disambiguation is not
  skipped: every size difference is the candidate's own byte size, and the candidate
  whose file is strictly smaller than every other candidate's is resolved.
\<close>

theorem unknown_size_smallest_file:
  assumes "csv_size_of csv_row = Inr 0"
    and "2 \<le> length matches"
    and "\<forall>m\<in>set matches. 0 \<le> size_bytes m"
    and "uniquely_least size_bytes matches i"
  shows "map (size_diff_of 0) matches = map size_bytes matches \<and>
         disambiguate_matches csv_row matches = Inr (Some (matches ! i))"
proof -
  have eq: "map (size_diff_of 0) matches = map size_bytes matches"
    using assms(3) by (simp add: size_diff_of_def)
  from assms(2) have ne: "matches \<noteq> []" by auto
  have "at_diff matches (map size_bytes matches) (min_list (map size_bytes matches)) = [matches ! i]"
    using at_diff_least_single [OF ne, of size_bytes "matches ! i"] assms(4) by blast
  then have "at_diff matches (map (size_diff_of 0) matches)
      (min_list (map (size_diff_of 0) matches)) = [matches ! i]" by (simp only: eq)
  with disambiguate_by_size [OF assms(1,2)] have
    "disambiguate_matches csv_row matches = Inr (Some (matches ! i))" by simp
  with eq show ?thesis by blast
qed

theorem unknown_size_smallest_file_witness:
  "csv_size_of row_raw = Inr 0 \<and> 2 \<le> length [small_file, smaller_file] \<and>
   0 \<le> size_bytes small_file \<and> 0 \<le> size_bytes smaller_file \<and>
   size_bytes smaller_file < size_bytes small_file \<and>
   map (size_diff_of 0) [small_file, smaller_file] = [300, 200] \<and>
   disambiguate_matches row_raw [small_file, smaller_file] = Inr (Some smaller_file)"
proof -
  have h1: "csv_size_of row_raw = Inr 0" by code_simp
  have h2: "2 \<le> length [small_file, smaller_file]" by simp
  have s: "size_bytes small_file = 300" "size_bytes smaller_file = 200"
    by (simp_all add: small_file_def smaller_file_def img_of_def)
  have h3: "\<forall>m\<in>set [small_file, smaller_file]. 0 \<le> size_bytes m" using s by simp
  have h4: "uniquely_least size_bytes [small_file, smaller_file] 1"
    using s by (simp add: uniquely_least_def less_Suc_eq)
  have r: "map (size_diff_of 0) [small_file, smaller_file] = map size_bytes [small_file, smaller_file] \<and>
      disambiguate_matches row_raw [small_file, smaller_file] =
        Inr (Some ([small_file, smaller_file] ! 1))"
    by (rule unknown_size_smallest_file [OF h1 h2 h3 h4])
  from r h1 s show ?thesis by simp
qed

end
